theory Spec2Isabelle
  imports Complex_Main "HOL-Library.Word"
begin

section \<open>Data model of \<open>src/geometry/epipolar.py\<close>\<close>

text \<open>
  Exceptions of the Python code are values. \<open>ValueError\<close> is what tuple unpacking
  raises, \<open>KeyError\<close> what a dictionary lookup raises, \<open>AttributeError\<close> what reading a
  missing attribute raises, \<open>OverflowError\<close> what the conversion of a too large integer
  to a float raises, and \<open>cv2_error\<close> stands for any exception raised inside an OpenCV
  call.
\<close>

datatype error =
    KeyError string
  | AttributeError string
  | ValueError string
  | OverflowError
  | cv2_error

text \<open>
  A \<open>cv2.DMatch\<close>: the index of the query descriptor, the index of the train descriptor
  and their distance. The distance is a finite single-precision number, read here as the
  real number it denotes.
\<close>

record DMatch =
  queryIdx :: int
  trainIdx :: int
  distance :: real

text \<open>
  A NumPy array: its shape and its elements in row-major order (\<open>ravel()\<close> order).
\<close>

record 'a ndarray =
  shape :: "nat list"
  data :: "'a list"

text \<open>
  A double-precision number (\<open>np.float64\<close>, Python's \<open>float\<close>): a finite value, read as
  the real number it denotes, an infinity or a NaN. A Python number, as the values of
  the intrinsics dictionary are, is an \<open>int\<close> of any size or a \<open>float\<close>.
\<close>

datatype float64 = Finite real | PosInf | NegInf | NaN

datatype pyval = PyInt int | PyFloat float64

type_synonym descriptor = "real list"
type_synonym point = "real \<times> real"

section \<open>The correspondence matcher\<close>

text \<open>
  \<open>for m, n in knn_matches\<close> unpacks every row into exactly two names; a row of any
  other length raises \<open>ValueError\<close>.
\<close>

fun unpack2 :: "'a list \<Rightarrow> error + ('a \<times> 'a)" where
  "unpack2 [m, n] = Inr (m, n)"
| "unpack2 [] = Inl (ValueError ''not enough values to unpack (expected 2, got 0)'')"
| "unpack2 [m] = Inl (ValueError ''not enough values to unpack (expected 2, got 1)'')"
| "unpack2 (m # n # r # rest) = Inl (ValueError ''too many values to unpack (expected 2)'')"

text \<open>Lowe's ratio test, \<open>m.distance < 0.8 * n.distance\<close>.\<close>

definition ratio_test :: "DMatch \<Rightarrow> DMatch \<Rightarrow> bool" where
  "ratio_test m n \<longleftrightarrow> distance m < 0.8 * distance n"

text \<open>
  The loop of \<open>match_features\<close> over \<open>knn_matches\<close>, with the list \<open>good_matches\<close>
  built so far as accumulator (\<open>append\<close> adds at the end).
\<close>

fun ratio_loop :: "DMatch list list \<Rightarrow> DMatch list \<Rightarrow> error + DMatch list" where
  "ratio_loop [] good_matches = Inr good_matches"
| "ratio_loop (row # knn_matches) good_matches =
     (case unpack2 row of
        Inl e \<Rightarrow> Inl e
      | Inr (m, n) \<Rightarrow>
          if ratio_test m n then ratio_loop knn_matches (good_matches @ [m])
          else ratio_loop knn_matches good_matches)"

text \<open>
  The body of \<open>match_features\<close> after the call of \<open>bf.knnMatch\<close>: the loop from the
  empty list, then the two index arrays.
\<close>

definition match_features_of :: "DMatch list list \<Rightarrow> error + (int list \<times> int list)" where
  "match_features_of knn_matches =
     (case ratio_loop knn_matches [] of
        Inl e \<Rightarrow> Inl e
      | Inr good_matches \<Rightarrow>
          Inr (map queryIdx good_matches, map trainIdx good_matches))"

text \<open>
  Modelled from the spec: \<open>cv2.BFMatcher(cv2.NORM_L2, crossCheck=False).knnMatch\<close> is
  OpenCV code, not part of the repository. The spec describes it as an exhaustive search
  that finds, for every descriptor of \<open>desc1\<close>, its nearest neighbours in \<open>desc2\<close> under
  Euclidean distance, at most \<open>k\<close> of them and nearest first; a query has fewer than \<open>k\<close>
  neighbours when \<open>desc2\<close> has fewer than \<open>k\<close> entries.
\<close>

definition norm_L2 :: "descriptor \<Rightarrow> descriptor \<Rightarrow> real" where
  "norm_L2 a b = sqrt (\<Sum>(x, y) \<leftarrow> zip a b. (x - y)\<^sup>2)"

definition knn_row :: "descriptor list \<Rightarrow> nat \<Rightarrow> nat \<Rightarrow> descriptor \<Rightarrow> DMatch list" where
  "knn_row desc2 k i q =
     take k (sort_key distance
       (map (\<lambda>j. \<lparr>queryIdx = int i, trainIdx = int j, distance = norm_L2 q (desc2 ! j)\<rparr>)
            [0..<length desc2]))"

definition knnMatch :: "descriptor list \<Rightarrow> descriptor list \<Rightarrow> nat \<Rightarrow> DMatch list list" where
  "knnMatch desc1 desc2 k = map (\<lambda>i. knn_row desc2 k i (desc1 ! i)) [0..<length desc1]"

text \<open>
  An instance of \<open>EpipolarGeometry\<close> is its attribute dictionary. A method takes
  \<open>self\<close> and returns its result (or the exception raised) together with \<open>self\<close> as
  the call leaves it.
\<close>

type_synonym EpipolarGeometry = "string \<rightharpoonup> float64 ndarray"

definition match_features ::
  "EpipolarGeometry \<Rightarrow> descriptor list \<Rightarrow> descriptor list \<Rightarrow>
     (error + (int list \<times> int list)) \<times> EpipolarGeometry" where
  "match_features self desc1 desc2 = (match_features_of (knnMatch desc1 desc2 2), self)"

text \<open>The rows of \<open>knn_matches\<close> that pass the ratio test, in order.\<close>

definition accepted :: "DMatch list list \<Rightarrow> DMatch list" where
  "accepted knn_matches =
     map (\<lambda>row. row ! 0) (filter (\<lambda>row. ratio_test (row ! 0) (row ! 1)) knn_matches)"

section \<open>Initialisation\<close>

text \<open>
  \<open>np.array(..., dtype=np.float64)\<close> converts every entry to a double. A Python
  \<open>float\<close> is kept as it is. A Python \<open>int\<close> is rounded to 53 significant bits, to
  the nearest value and to the even one at a tie; when the rounded value reaches
  \<open>2 ^ 1024\<close> the conversion raises \<open>OverflowError\<close>.
\<close>

fun bit_length :: "nat \<Rightarrow> nat" where
  "bit_length a = (if a = 0 then 0 else Suc (bit_length (a div 2)))"

definition round53 :: "nat \<Rightarrow> nat" where
  "round53 a =
     (if bit_length a \<le> 53 then a
      else let s = bit_length a - 53; q = a div 2 ^ s; r = a mod 2 ^ s; h = 2 ^ (s - 1)
           in (if h < r \<or> (r = h \<and> odd q) then q + 1 else q) * 2 ^ s)"

definition int_to_float64 :: "int \<Rightarrow> error + float64" where
  "int_to_float64 n =
     (let a = round53 (nat \<bar>n\<bar>)
      in if 2 ^ 1024 \<le> a then Inl OverflowError
         else Inr (Finite (if n < 0 then - real a else real a)))"

fun to_float64 :: "pyval \<Rightarrow> error + float64" where
  "to_float64 (PyInt n) = int_to_float64 n"
| "to_float64 (PyFloat x) = Inr x"

fun convert_all :: "pyval list \<Rightarrow> error + float64 list" where
  "convert_all [] = Inr []"
| "convert_all (v # vs) =
     (case to_float64 v of
        Inl e \<Rightarrow> Inl e
      | Inr x \<Rightarrow> (case convert_all vs of Inl e \<Rightarrow> Inl e | Inr xs \<Rightarrow> Inr (x # xs)))"

text \<open>
  \<open>__init__\<close> reads the four intrinsics from the dictionary, in the order
  \<open>fx\<close>, \<open>fy\<close>, \<open>cx\<close>, \<open>cy\<close> (a missing key raises \<open>KeyError\<close>), converts the
  nine entries of the matrix to doubles, row by row, and stores the 3x3 matrix \<open>K\<close> as
  the only attribute of the new instance.
\<close>

definition lookup :: "(string \<rightharpoonup> pyval) \<Rightarrow> string \<Rightarrow> error + pyval" where
  "lookup d k = (case d k of None \<Rightarrow> Inl (KeyError k) | Some v \<Rightarrow> Inr v)"

definition init :: "(string \<rightharpoonup> pyval) \<Rightarrow> error + EpipolarGeometry" where
  "init camera_intrinsics =
     (case lookup camera_intrinsics ''fx'' of Inl e \<Rightarrow> Inl e | Inr fx \<Rightarrow>
      case lookup camera_intrinsics ''fy'' of Inl e \<Rightarrow> Inl e | Inr fy \<Rightarrow>
      case lookup camera_intrinsics ''cx'' of Inl e \<Rightarrow> Inl e | Inr cx \<Rightarrow>
      case lookup camera_intrinsics ''cy'' of Inl e \<Rightarrow> Inl e | Inr cy \<Rightarrow>
      case convert_all [fx, PyInt 0, cx,  PyInt 0, fy, cy,  PyInt 0, PyInt 0, PyInt 1] of
        Inl e \<Rightarrow> Inl e
      | Inr entries \<Rightarrow> Inr (Map.empty(''K'' \<mapsto> \<lparr>shape = [3, 3], data = entries\<rparr>)))"

section \<open>The relative pose estimator\<close>

text \<open>
  \<open>cv2.findEssentialMat\<close> and \<open>cv2.recoverPose\<close> are OpenCV code working in floating
  point; they are parameters of the model. Each either raises or returns what the
  Python binding returns: \<open>(E, mask)\<close>, where either may be \<open>None\<close>, and
  \<open>(retval, R, t, mask)\<close>. Both take the camera matrix as a read-only input.
\<close>

datatype fit_method = USAC_MAGSAC

record cv2 =
  findEssentialMat ::
    "point list \<Rightarrow> point list \<Rightarrow> float64 ndarray \<Rightarrow> fit_method \<Rightarrow> real \<Rightarrow> real \<Rightarrow>
       error + (real ndarray option \<times> 8 word ndarray option)"
  recoverPose ::
    "real ndarray \<Rightarrow> point list \<Rightarrow> point list \<Rightarrow> float64 ndarray \<Rightarrow> 8 word ndarray option \<Rightarrow>
       error + (int \<times> real ndarray \<times> real ndarray \<times> 8 word ndarray)"

type_synonym pose = "real ndarray option \<times> real ndarray option \<times> bool list option"

definition getattr :: "EpipolarGeometry \<Rightarrow> string \<Rightarrow> error + float64 ndarray" where
  "getattr self a = (case self a of None \<Rightarrow> Inl (AttributeError a) | Some v \<Rightarrow> Inr v)"

definition estimate_pose ::
  "cv2 \<Rightarrow> EpipolarGeometry \<Rightarrow> point list \<Rightarrow> point list \<Rightarrow> (error + pose) \<times> EpipolarGeometry" where
  "estimate_pose cv self kpts1 kpts2 =
     (if length kpts1 < 5 then (Inr (None, None, None), self)
      else case getattr self ''K'' of Inl e \<Rightarrow> (Inl e, self) | Inr K \<Rightarrow>
        (case findEssentialMat cv kpts1 kpts2 K USAC_MAGSAC 0.9999 1.0 of
           Inl e \<Rightarrow> (Inl e, self)
         | Inr (E, mask_E) \<Rightarrow>
             (case E of
                None \<Rightarrow> (Inr (None, None, None), self)
              | Some E' \<Rightarrow>
                  if shape E' \<noteq> [3, 3] then (Inr (None, None, None), self)
                  else (case recoverPose cv E' kpts1 kpts2 K mask_E of
                          Inl e \<Rightarrow> (Inl e, self)
                        | Inr (retval, R, t, mask_pose) \<Rightarrow>
                            (Inr (Some R, Some t, Some (map (\<lambda>v. v > 0) (data mask_pose))),
                             self)))))"

text \<open>
  What OpenCV documents about the mask of \<open>recoverPose\<close>: it holds one entry for each
  pair of input points.
\<close>

definition recoverPose_mask_per_point :: "cv2 \<Rightarrow> bool" where
  "recoverPose_mask_per_point cv \<longleftrightarrow>
     (\<forall>E points1 points2 K mask_E retval R t mask_pose.
        recoverPose cv E points1 points2 K mask_E = Inr (retval, R, t, mask_pose) \<longrightarrow>
        length (data mask_pose) = length points1)"

text \<open>
  Modelled from the spec: how \<open>cv2.recoverPose\<close> (OpenCV code, not part of the
  repository) refines the mask it is given. The spec has it triangulate each inlier of
  the fit and recompute the mask as exactly those correspondences with positive depth
  under the selected \<open>(R, t)\<close>, a mask stricter than and derived from the mask of the
  fit. So an entry of the returned mask is set exactly when the entry of the given mask
  is set and the correspondence has positive depth. The depth test itself is floating-point
  triangulation and stays a parameter, \<open>positive_depth R t K p1 p2\<close>. The call returns
  only when both point arrays and the given mask have the same number of entries.
\<close>

definition recoverPose_mask_in_out ::
  "(real ndarray \<Rightarrow> real ndarray \<Rightarrow> float64 ndarray \<Rightarrow> point \<Rightarrow> point \<Rightarrow> bool) \<Rightarrow> cv2 \<Rightarrow> bool" where
  "recoverPose_mask_in_out positive_depth cv \<longleftrightarrow>
     (\<forall>E points1 points2 K mask_in retval R t mask_pose.
        recoverPose cv E points1 points2 K (Some mask_in) = Inr (retval, R, t, mask_pose) \<longrightarrow>
        length points2 = length points1 \<and>
        length (data mask_in) = length points1 \<and>
        length (data mask_pose) = length points1 \<and>
        (\<forall>k < length points1.
           data mask_pose ! k > 0 \<longleftrightarrow>
             data mask_in ! k > 0 \<and> positive_depth R t K (points1 ! k) (points2 ! k)))"

section \<open>Concrete inputs\<close>

text \<open>
  The instance and the ten points of the module's verification block
  (\<open>fx = fy = 800\<close>, \<open>cx = 320\<close>, \<open>cy = 240\<close>; \<open>pts2\<close> is \<open>pts1\<close> expanded
  radially from the principal point by the factor \<open>0.1\<close>).
\<close>

definition intrinsics_ex :: "string \<rightharpoonup> pyval" where
  "intrinsics_ex =
     [''fx'' \<mapsto> PyInt 800, ''fy'' \<mapsto> PyInt 800, ''cx'' \<mapsto> PyInt 320, ''cy'' \<mapsto> PyInt 240]"

definition K_ex :: "float64 ndarray" where
  "K_ex = \<lparr>shape = [3, 3],
            data = [Finite 800, Finite 0, Finite 320,  Finite 0, Finite 800, Finite 240,
                    Finite 0, Finite 0, Finite 1]\<rparr>"

definition geo_ex :: EpipolarGeometry where
  "geo_ex = Map.empty(''K'' \<mapsto> K_ex)"

definition pts_ex :: "point list" where
  "pts_ex = [(320, 240), (330, 240), (320, 250), (310, 240), (320, 230),
             (400, 300), (250, 180), (450, 200), (200, 400), (350, 350)]"

definition pts2_ex :: "point list" where
  "pts2_ex = map (\<lambda>(x, y). (x + (x - 320) * 0.1, y + (y - 240) * 0.1)) pts_ex"

text \<open>Three rows of neighbours: the first and the third pass the ratio test.\<close>

definition knn_ex :: "DMatch list list" where
  "knn_ex = [[\<lparr>queryIdx = 0, trainIdx = 1, distance = 1\<rparr>, \<lparr>queryIdx = 0, trainIdx = 0, distance = 2\<rparr>],
             [\<lparr>queryIdx = 1, trainIdx = 0, distance = 3\<rparr>, \<lparr>queryIdx = 1, trainIdx = 1, distance = 3\<rparr>],
             [\<lparr>queryIdx = 2, trainIdx = 1, distance = 0\<rparr>, \<lparr>queryIdx = 2, trainIdx = 0, distance = 5\<rparr>]]"

text \<open>
  Four behaviours of OpenCV: one where every call raises, one where the fit finds no
  model, one where the fit returns a 3x3 matrix with every point an inlier and the
  pose recovery clears the mask of the points left of \<open>x = 300\<close>, and one where the
  fit rejects the points above \<open>y = 200\<close> and the pose recovery clears, in the mask it
  is given, the entries of the points left of \<open>x = 300\<close>.
\<close>

definition cv_raising :: cv2 where
  "cv_raising = \<lparr>findEssentialMat = (\<lambda>points1 points2 K m prob threshold. Inl cv2_error),
                 recoverPose = (\<lambda>E points1 points2 K mask_E. Inl cv2_error)\<rparr>"

definition cv_no_model :: cv2 where
  "cv_no_model = \<lparr>findEssentialMat = (\<lambda>points1 points2 K m prob threshold. Inr (None, None)),
                  recoverPose = (\<lambda>E points1 points2 K mask_E. Inl cv2_error)\<rparr>"

definition cv_ex :: cv2 where
  "cv_ex =
     \<lparr>findEssentialMat = (\<lambda>points1 points2 K m prob threshold.
        Inr (Some \<lparr>shape = [3, 3], data = [0, -1, 0,  1, 0, 0,  0, 0, 0]\<rparr>,
             Some \<lparr>shape = [length points1, 1], data = map (\<lambda>p. 1) points1\<rparr>)),
      recoverPose = (\<lambda>E points1 points2 K mask_E.
        Inr (int (length points1),
             \<lparr>shape = [3, 3], data = [1, 0, 0,  0, 1, 0,  0, 0, 1]\<rparr>,
             \<lparr>shape = [3, 1], data = [0, 0, 1]\<rparr>,
             \<lparr>shape = [length points1, 1],
              data = map (\<lambda>(x, y). if x < 300 then 0 else 1) points1\<rparr>))\<rparr>"

definition positive_depth_ex ::
  "real ndarray \<Rightarrow> real ndarray \<Rightarrow> float64 ndarray \<Rightarrow> point \<Rightarrow> point \<Rightarrow> bool" where
  "positive_depth_ex R t K p1 p2 \<longleftrightarrow> \<not> fst p1 < 300"

definition cv_masked :: cv2 where
  "cv_masked =
     \<lparr>findEssentialMat = (\<lambda>points1 points2 K m prob threshold.
        Inr (Some \<lparr>shape = [3, 3], data = [0, -1, 0,  1, 0, 0,  0, 0, 0]\<rparr>,
             Some \<lparr>shape = [length points1, 1],
                   data = map (\<lambda>(x, y). if y < 200 then 0 else 1) points1\<rparr>)),
      recoverPose = (\<lambda>E points1 points2 K mask_E.
        let mask_in = (case mask_E of None \<Rightarrow> map (\<lambda>p. 1) points1 | Some mk \<Rightarrow> data mk)
        in if length points2 \<noteq> length points1 \<or> length mask_in \<noteq> length points1
           then Inl cv2_error
           else Inr (int (length points1),
                     \<lparr>shape = [3, 3], data = [1, 0, 0,  0, 1, 0,  0, 0, 1]\<rparr>,
                     \<lparr>shape = [3, 1], data = [0, 0, 1]\<rparr>,
                     \<lparr>shape = [length points1, 1],
                      data = map (\<lambda>(v, p). if fst p < 300 then 0 else v)
                               (zip mask_in points1)\<rparr>))\<rparr>"

section \<open>Facts about the conversion to doubles\<close>

declare bit_length.simps [simp del]

lemma bit_length_le: "bit_length a \<le> k \<longleftrightarrow> a < 2 ^ k"
proof (induction a arbitrary: k rule: bit_length.induct)
  case (1 a)
  show ?case
  proof (cases "a = 0")
    case True
    then show ?thesis by (simp add: bit_length.simps)
  next
    case False
    show ?thesis
    proof (cases k)
      case 0
      with False show ?thesis by (simp add: bit_length.simps)
    next
      case (Suc k')
      have "bit_length a \<le> Suc k' \<longleftrightarrow> bit_length (a div 2) \<le> k'"
        using False by (simp add: bit_length.simps[of a])
      also have "\<dots> \<longleftrightarrow> a div 2 < 2 ^ k'" using 1[OF False] .
      also have "\<dots> \<longleftrightarrow> a < 2 ^ Suc k'" by auto
      finally show ?thesis using Suc by simp
    qed
  qed
qed

lemma bit_length_eq: "2 ^ k \<le> a \<Longrightarrow> a < 2 ^ Suc k \<Longrightarrow> bit_length a = Suc k"
proof -
  assume lo: "2 ^ k \<le> a" and hi: "a < 2 ^ Suc k"
  from hi have "bit_length a \<le> Suc k" by (simp only: bit_length_le)
  moreover from lo have "\<not> bit_length a \<le> k" by (simp only: bit_length_le not_less)
  ultimately show ?thesis by simp
qed

lemma round53_small: "a < 2 ^ 53 \<Longrightarrow> round53 a = a"
  by (simp add: round53_def bit_length_le)

text \<open>An integer below \<open>2 ^ 53\<close> in absolute value is converted exactly.\<close>

lemma int_to_float64_small: "\<bar>n\<bar> < 2 ^ 53 \<Longrightarrow> int_to_float64 n = Inr (Finite (real_of_int n))"
proof -
  assume a: "\<bar>n\<bar> < 2 ^ 53"
  then have small: "nat \<bar>n\<bar> < 2 ^ 53" by (simp add: nat_less_iff)
  then have r: "round53 (nat \<bar>n\<bar>) = nat \<bar>n\<bar>" by (rule round53_small)
  have "nat \<bar>n\<bar> < 2 ^ 1024"
    using small by (rule less_le_trans) simp
  then show ?thesis by (auto simp: int_to_float64_def r Let_def)
qed

text \<open>\<open>2 ^ 53 + 1\<close> lies halfway between two doubles and is rounded to the even one.\<close>

lemma round53_half_even: "round53 (2 ^ 53 + 1) = 2 ^ 53"
proof -
  have b: "bit_length (2 ^ 53 + 1) = Suc 53"
    by (rule bit_length_eq) simp_all
  show ?thesis
    unfolding round53_def b by (simp add: Let_def)
qed

lemma int_to_float64_rounds: "int_to_float64 (2 ^ 53 + 1) = Inr (Finite (2 ^ 53))"
proof -
  have "nat \<bar>2 ^ 53 + 1 :: int\<bar> = 2 ^ 53 + 1" by simp
  then show ?thesis
    unfolding int_to_float64_def by (simp only: round53_half_even Let_def) simp
qed

text \<open>An integer of absolute value \<open>2 ^ 1024\<close> or more raises \<open>OverflowError\<close>.\<close>

lemma round53_overflow:
  assumes "2 ^ 1024 \<le> a"
  shows "2 ^ 1024 \<le> round53 a"
proof -
  define b where "b = bit_length a"
  from assms have nb: "\<not> b \<le> 1024" unfolding b_def by (simp only: bit_length_le not_less)
  define s where "s = b - 53"
  have bs: "b - 1 = 52 + s" using nb by (simp add: s_def)
  have "\<not> bit_length a \<le> b - 1" using nb by (simp add: b_def)
  then have lo: "2 ^ (b - 1) \<le> a" by (simp only: bit_length_le not_less)
  have "(2::nat) ^ 52 * 2 ^ s \<le> a" using lo by (simp only: bs power_add)
  then have q: "2 ^ 52 \<le> a div 2 ^ s" by (simp add: less_eq_div_iff_mult_less_eq)
  have "(2::nat) ^ 1024 \<le> 2 ^ (b - 1)" using nb by (intro power_increasing) simp_all
  also have "\<dots> = 2 ^ 52 * 2 ^ s" by (simp only: bs power_add)
  also have "\<dots> \<le> a div 2 ^ s * 2 ^ s" using q by (rule mult_le_mono1)
  finally have base: "2 ^ 1024 \<le> a div 2 ^ s * 2 ^ s" .
  then have up: "2 ^ 1024 \<le> (a div 2 ^ s + 1) * 2 ^ s" by (simp add: add_mult_distrib)
  have "\<not> bit_length a \<le> 53" using nb by (simp add: b_def)
  then show ?thesis
    using base up unfolding round53_def Let_def b_def[symmetric] s_def[symmetric]
    by (simp add: b_def s_def)
qed

lemma int_to_float64_overflow: "2 ^ 1024 \<le> \<bar>n\<bar> \<Longrightarrow> int_to_float64 n = Inl OverflowError"
proof -
  assume "2 ^ 1024 \<le> \<bar>n\<bar>"
  then have "2 ^ 1024 \<le> nat \<bar>n\<bar>" by (simp add: le_nat_iff)
  then have "2 ^ 1024 \<le> round53 (nat \<bar>n\<bar>)" by (rule round53_overflow)
  then show ?thesis by (simp add: int_to_float64_def Let_def)
qed

lemma int_to_float64_0: "int_to_float64 0 = Inr (Finite 0)"
  using int_to_float64_small[of 0] by simp

lemma int_to_float64_1: "int_to_float64 1 = Inr (Finite 1)"
  using int_to_float64_small[of 1] by simp

lemma init_rounds:
  "init [''fx'' \<mapsto> PyInt (2 ^ 53 + 1), ''fy'' \<mapsto> PyInt 800, ''cx'' \<mapsto> PyInt 320, ''cy'' \<mapsto> PyInt 240] =
     Inr (Map.empty(''K'' \<mapsto> \<lparr>shape = [3, 3],
            data = [Finite (2 ^ 53), Finite 0, Finite 320,  Finite 0, Finite 800, Finite 240,
                    Finite 0, Finite 0, Finite 1]\<rparr>))"
  using int_to_float64_small[of 800] int_to_float64_small[of 320] int_to_float64_small[of 240]
    int_to_float64_rounds
  by (simp add: init_def lookup_def int_to_float64_0 int_to_float64_1)

lemma init_overflows:
  "init [''fx'' \<mapsto> PyInt (2 ^ 1024), ''fy'' \<mapsto> PyInt 800, ''cx'' \<mapsto> PyInt 320, ''cy'' \<mapsto> PyInt 240] =
     Inl OverflowError"
  using int_to_float64_overflow[of "2 ^ 1024"]
  by (simp add: init_def lookup_def)

section \<open>Facts about the matcher's loop\<close>

lemma unpack2_Inr_iff: "unpack2 row = Inr (m, n) \<longleftrightarrow> row = [m, n]"
  by (cases row rule: unpack2.cases) auto

lemma ratio_loop_Inr:
  "ratio_loop knn_matches acc = Inr good \<Longrightarrow>
     good = acc @ accepted knn_matches \<and> (\<forall>row \<in> set knn_matches. \<exists>m n. row = [m, n])"
proof (induction knn_matches arbitrary: acc)
  case Nil
  then show ?case by (simp add: accepted_def)
next
  case (Cons row rest)
  from Cons.prems obtain m n where u: "unpack2 row = Inr (m, n)"
    by (auto split: sum.splits)
  then have row: "row = [m, n]" by (simp add: unpack2_Inr_iff)
  show ?case
  proof (cases "ratio_test m n")
    case True
    with Cons.prems u have "ratio_loop rest (acc @ [m]) = Inr good" by simp
    from Cons.IH[OF this] row True show ?thesis by (simp add: accepted_def)
  next
    case False
    with Cons.prems u have "ratio_loop rest acc = Inr good" by simp
    from Cons.IH[OF this] row False show ?thesis by (simp add: accepted_def)
  qed
qed

lemma ratio_loop_pairs:
  "\<forall>row \<in> set knn_matches. \<exists>m n. row = [m, n] \<Longrightarrow>
     ratio_loop knn_matches acc = Inr (acc @ accepted knn_matches)"
proof (induction knn_matches arbitrary: acc)
  case Nil
  then show ?case by (simp add: accepted_def)
next
  case (Cons row rest)
  then obtain m n where row: "row = [m, n]" by auto
  from Cons have "\<And>acc. ratio_loop rest acc = Inr (acc @ accepted rest)" by simp
  with row show ?case by (simp add: accepted_def)
qed

lemma match_features_of_Inr:
  "match_features_of knn_matches = Inr (idx1, idx2) \<Longrightarrow>
     ratio_loop knn_matches [] = Inr (accepted knn_matches) \<and>
     idx1 = map queryIdx (accepted knn_matches) \<and>
     idx2 = map trainIdx (accepted knn_matches) \<and>
     (\<forall>row \<in> set knn_matches. \<exists>m n. row = [m, n])"
  unfolding match_features_of_def
  by (auto split: sum.splits dest: ratio_loop_Inr)

lemma accepted_nth:
  assumes "k < length (accepted knn_matches)"
  shows "\<exists>row \<in> set knn_matches. accepted knn_matches ! k = row ! 0 \<and> ratio_test (row ! 0) (row ! 1)"
proof -
  let ?f = "filter (\<lambda>row. ratio_test (row ! 0) (row ! 1)) knn_matches"
  from assms have k: "k < length ?f" by (simp add: accepted_def)
  then have "?f ! k \<in> set ?f" by (rule nth_mem)
  then have "?f ! k \<in> set knn_matches" "ratio_test (?f ! k ! 0) (?f ! k ! 1)" by auto
  moreover from k have "accepted knn_matches ! k = ?f ! k ! 0" by (simp add: accepted_def)
  ultimately show ?thesis by auto
qed
lemma ratio_loop_bound:
  assumes "match_features_of knn_matches = Inr (idx1, idx2)" and "k < length idx1"
  shows "\<exists>m n. [m, n] \<in> set knn_matches \<and> queryIdx m = idx1 ! k \<and> trainIdx m = idx2 ! k \<and>
           distance m < 0.8 * distance n"
proof -
  from match_features_of_Inr[OF assms(1)]
  have i1: "idx1 = map queryIdx (accepted knn_matches)"
    and i2: "idx2 = map trainIdx (accepted knn_matches)"
    and two: "\<forall>row \<in> set knn_matches. \<exists>m n. row = [m, n]" by auto
  from assms(2) i1 have k: "k < length (accepted knn_matches)" by simp
  from accepted_nth[OF k] obtain row where row: "row \<in> set knn_matches"
    "accepted knn_matches ! k = row ! 0" "ratio_test (row ! 0) (row ! 1)" by auto
  from two row(1) obtain m n where mn: "row = [m, n]" by auto
  from mn row k i1 i2 have "[m, n] \<in> set knn_matches \<and> queryIdx m = idx1 ! k \<and>
      trainIdx m = idx2 ! k \<and> distance m < 0.8 * distance n"
    by (simp add: ratio_test_def)
  then show ?thesis by blast
qed
lemma knn_ex_eval: "match_features_of knn_ex = Inr ([0, 2], [1, 1])"
  by (simp add: knn_ex_def match_features_of_def ratio_test_def)
lemma knn_row_queryIdx: "m \<in> set (knn_row desc2 k i q) \<Longrightarrow> queryIdx m = int i"
  by (auto simp: knn_row_def dest!: in_set_takeD)

lemma sorted_wrt_int_filter: "sorted_wrt (<) (map int (filter Q [0..<n]))"
  by (simp add: sorted_wrt_map sorted_wrt_filter)

lemma match_features_idx1:
  assumes "fst (match_features self desc1 desc2) = Inr (idx1, idx2)"
  shows "idx1 = map int (filter (\<lambda>i. ratio_test (knn_row desc2 2 i (desc1 ! i) ! 0)
                                           (knn_row desc2 2 i (desc1 ! i) ! 1))
                          [0..<length desc1])"
proof -
  let ?f = "\<lambda>i. knn_row desc2 2 i (desc1 ! i)"
  let ?P = "\<lambda>row. ratio_test (row ! 0) (row ! 1)"
  from assms have mf: "match_features_of (knnMatch desc1 desc2 2) = Inr (idx1, idx2)"
    by (simp add: match_features_def)
  from match_features_of_Inr[OF mf]
  have i1: "idx1 = map queryIdx (accepted (knnMatch desc1 desc2 2))"
    and two: "\<forall>row \<in> set (knnMatch desc1 desc2 2). \<exists>m n. row = [m, n]" by auto
  have q: "queryIdx (?f i ! 0) = int i" if "i < length desc1" for i
  proof -
    from that have "?f i \<in> set (knnMatch desc1 desc2 2)" by (simp add: knnMatch_def)
    with two obtain m n where "?f i = [m, n]" by blast
    then have "?f i ! 0 \<in> set (?f i)" by simp
    then show ?thesis by (rule knn_row_queryIdx)
  qed
  have "idx1 = map (\<lambda>i. queryIdx (?f i ! 0)) (filter (\<lambda>i. ?P (?f i)) [0..<length desc1])"
    by (simp add: i1 accepted_def knnMatch_def filter_map comp_def)
  also have "\<dots> = map int (filter (\<lambda>i. ?P (?f i)) [0..<length desc1])"
    by (rule map_cong) (auto simp: q)
  finally show ?thesis .
qed
lemma norm_L2_1d: "norm_L2 [a] [b] = \<bar>a - b\<bar>"
  by (simp add: norm_L2_def)

lemma upt_2: "[0..<2] = [0, 1]"
  by (simp add: upt_rec numeral_2_eq_2)

lemma shared_train_eval:
  "fst (match_features geo_ex [[0], [0]] [[0], [1]]) = Inr ([0, 1], [0, 0])"
  by (simp add: match_features_def knnMatch_def knn_row_def norm_L2_1d upt_2
        match_features_of_def ratio_test_def)
lemma take_2_pair: "take 2 ys = [m, n] \<Longrightarrow> \<exists>rest. ys = m # n # rest"
proof (cases ys)
  case Nil
  assume "take 2 ys = [m, n]"
  with Nil show ?thesis by simp
next
  case (Cons a as)
  assume t: "take 2 ys = [m, n]"
  show ?thesis
  proof (cases as)
    case Nil
    with Cons t show ?thesis by simp
  next
    case (Cons b bs)
    with \<open>ys = a # as\<close> t show ?thesis by (simp add: numeral_2_eq_2)
  qed
qed

lemma sorted_key_second:
  assumes "sort_key f xs = m # n # rest" and "x \<in> set xs" and "x \<noteq> m"
  shows "f n \<le> f x"
proof -
  have "sorted (map f (sort_key f xs))" by (rule sorted_sort_key)
  then have "sorted (map f (m # n # rest))" by (simp only: assms(1))
  then have le: "\<forall>r \<in> set rest. f n \<le> f r" by simp
  have "set (sort_key f xs) = set xs" by (rule set_sort)
  then have "set xs = set (m # n # rest)" by (simp only: assms(1))
  with assms(2,3) have "x = n \<or> x \<in> set rest" by simp
  with le show ?thesis by auto
qed

lemma knn_row_sorted_prefix:
  assumes "knn_row desc2 2 i q = [m, n]"
  shows "\<exists>rest. sort_key distance (map (\<lambda>j. \<lparr>queryIdx = int i, trainIdx = int j, distance = norm_L2 q (desc2 ! j)\<rparr>) [0..<length desc2]) = m # n # rest"
  using assms unfolding knn_row_def by (rule take_2_pair)

lemma knn_row_pair:
  assumes "knn_row desc2 2 i q = [m, n]"
  shows "\<exists>j < length desc2. trainIdx m = int j \<and> distance m = norm_L2 q (desc2 ! j) \<and>
           (\<forall>j' < length desc2. j' \<noteq> j \<longrightarrow> distance n \<le> norm_L2 q (desc2 ! j'))"
proof -
  let ?x = "\<lambda>j. \<lparr>queryIdx = int i, trainIdx = int j, distance = norm_L2 q (desc2 ! j)\<rparr>"
  let ?xs = "map ?x [0..<length desc2]"
  from knn_row_sorted_prefix[OF assms] obtain rest where ys: "sort_key distance ?xs = m # n # rest" ..
  have "m \<in> set (m # n # rest)" by simp
  then have "m \<in> set (sort_key distance ?xs)" by (simp only: ys)
  then have "m \<in> set ?xs" by (simp only: set_sort)
  then obtain j where j: "j < length desc2" "m = ?x j" by auto
  have "distance n \<le> norm_L2 q (desc2 ! j')" if j': "j' < length desc2" "j' \<noteq> j" for j'
  proof -
    from j' have "?x j' \<in> set ?xs" by simp
    moreover have "?x j' \<noteq> m" using j(2) j'(2) by simp
    ultimately have "distance n \<le> distance (?x j')" by (rule sorted_key_second[OF ys])
    then show ?thesis by simp
  qed
  moreover have "trainIdx m = int j" "distance m = norm_L2 q (desc2 ! j)"
    using j(2) by simp_all
  ultimately show ?thesis using j(1) by (intro exI[of _ j]) simp
qed

lemma knnMatch_mem:
  "row \<in> set (knnMatch desc1 desc2 k) \<Longrightarrow>
     \<exists>i < length desc1. row = knn_row desc2 k i (desc1 ! i)"
  by (auto simp: knnMatch_def)

lemma index_arrays_of_loop:
  assumes "match_features_of knn_matches = Inr (idx1, idx2)"
  shows "length idx1 = length idx2 \<and>
         (\<exists>good_matches. ratio_loop knn_matches [] = Inr good_matches \<and>
            length good_matches = length idx1 \<and>
            (\<forall>k < length good_matches.
               idx1 ! k = queryIdx (good_matches ! k) \<and> idx2 ! k = trainIdx (good_matches ! k)))"
proof -
  from assms obtain good where g: "ratio_loop knn_matches [] = Inr good"
    and i1: "idx1 = map queryIdx good" and i2: "idx2 = map trainIdx good"
    unfolding match_features_of_def by (auto split: sum.splits)
  have "length good = length idx1 \<and>
        (\<forall>k < length good. idx1 ! k = queryIdx (good ! k) \<and> idx2 ! k = trainIdx (good ! k))"
    using i1 i2 by simp
  with g i1 i2 show ?thesis by auto
qed

section \<open>Claims\<close>

text \<open>
  C1. With fewer than five correspondences (\<open>len(kpts1) < 5\<close>), \<open>estimate_pose\<close>
  returns \<open>(None, None, None)\<close>, whatever OpenCV would do: no OpenCV function is called,
  so the result is the same even when every such call would raise.
\<close>

theorem too_few_points:
  "length kpts1 < 5 \<Longrightarrow> estimate_pose cv self kpts1 kpts2 = (Inr (None, None, None), self)"
  by (simp add: estimate_pose_def)

theorem too_few_points_witness:
  "length (take 4 pts_ex) < 5 \<and>
   estimate_pose cv_raising geo_ex (take 4 pts_ex) (take 4 pts2_ex) =
     (Inr (None, None, None), geo_ex)"
  using too_few_points[of "take 4 pts_ex" cv_raising geo_ex "take 4 pts2_ex"]
  by (simp add: pts_ex_def)

text \<open>
  C3. Every correspondence in the matcher's output passes the ratio bound. For any rows
  returned by \<open>knnMatch\<close>, output entry \<open>k\<close> is the first match \<open>m\<close> of a row
  \<open>[m, n]\<close> with \<open>m.distance < 0.8 * n.distance\<close>. With the nearest-neighbour search
  as the spec describes it, the output pair \<open>(i, j)\<close> satisfies
  \<open>dist(desc1[i], desc2[j]) < 0.8 * dist(desc1[i], desc2[j'])\<close> for every other \<open>j'\<close>.
\<close>

theorem ratio_bound:
  "(match_features_of knn_matches = Inr (idx1, idx2) \<and> k < length idx1 \<longrightarrow>
      (\<exists>m n. [m, n] \<in> set knn_matches \<and> queryIdx m = idx1 ! k \<and> trainIdx m = idx2 ! k \<and>
             distance m < 0.8 * distance n)) \<and>
   (fst (match_features self desc1 desc2) = Inr (idx1', idx2') \<and> k' < length idx1' \<longrightarrow>
      (\<exists>i j. idx1' ! k' = int i \<and> idx2' ! k' = int j \<and> i < length desc1 \<and> j < length desc2 \<and>
         (\<forall>j' < length desc2. j' \<noteq> j \<longrightarrow>
            norm_L2 (desc1 ! i) (desc2 ! j) < 0.8 * norm_L2 (desc1 ! i) (desc2 ! j'))))"
proof (intro conjI impI)
  assume "match_features_of knn_matches = Inr (idx1, idx2) \<and> k < length idx1"
  then show "\<exists>m n. [m, n] \<in> set knn_matches \<and> queryIdx m = idx1 ! k \<and> trainIdx m = idx2 ! k \<and>
             distance m < 0.8 * distance n"
    using ratio_loop_bound by blast
next
  assume a: "fst (match_features self desc1 desc2) = Inr (idx1', idx2') \<and> k' < length idx1'"
  then have "match_features_of (knnMatch desc1 desc2 2) = Inr (idx1', idx2')"
    by (simp add: match_features_def)
  from ratio_loop_bound[OF this] a obtain m n where mn: "[m, n] \<in> set (knnMatch desc1 desc2 2)"
    "queryIdx m = idx1' ! k'" "trainIdx m = idx2' ! k'" "distance m < 0.8 * distance n"
    by blast
  from knnMatch_mem[OF mn(1)] obtain i where i: "i < length desc1"
    "knn_row desc2 2 i (desc1 ! i) = [m, n]" by auto
  have "m \<in> set (knn_row desc2 2 i (desc1 ! i))" by (simp add: i(2))
  then have qi: "queryIdx m = int i" by (rule knn_row_queryIdx)
  from knn_row_pair[OF i(2)] obtain j where j: "j < length desc2" "trainIdx m = int j"
    "distance m = norm_L2 (desc1 ! i) (desc2 ! j)"
    "\<forall>j' < length desc2. j' \<noteq> j \<longrightarrow> distance n \<le> norm_L2 (desc1 ! i) (desc2 ! j')"
    by blast
  have "norm_L2 (desc1 ! i) (desc2 ! j) < 0.8 * norm_L2 (desc1 ! i) (desc2 ! j')"
    if "j' < length desc2" "j' \<noteq> j" for j'
  proof -
    from that j(4) have "distance n \<le> norm_L2 (desc1 ! i) (desc2 ! j')" by simp
    with mn(4) j(3) show ?thesis by simp
  qed
  with i(1) j(1,2) qi mn(2,3)
  have "idx1' ! k' = int i \<and> idx2' ! k' = int j \<and> i < length desc1 \<and> j < length desc2 \<and>
         (\<forall>j' < length desc2. j' \<noteq> j \<longrightarrow>
            norm_L2 (desc1 ! i) (desc2 ! j) < 0.8 * norm_L2 (desc1 ! i) (desc2 ! j'))"
    by simp
  then show "\<exists>i j. idx1' ! k' = int i \<and> idx2' ! k' = int j \<and> i < length desc1 \<and> j < length desc2 \<and>
         (\<forall>j' < length desc2. j' \<noteq> j \<longrightarrow>
            norm_L2 (desc1 ! i) (desc2 ! j) < 0.8 * norm_L2 (desc1 ! i) (desc2 ! j'))"
    by blast
qed

theorem ratio_bound_witness:
  "(match_features_of knn_ex = Inr ([0, 2], [1, 1]) \<and> (1::nat) < length [0, 2 :: int]) \<and>
   (\<exists>m n. [m, n] \<in> set knn_ex \<and> queryIdx m = [0, 2] ! 1 \<and> trainIdx m = [1, 1] ! 1 \<and>
          distance m < 0.8 * distance n) \<and>
   (fst (match_features geo_ex [[0], [0]] [[0], [1]]) = Inr ([0, 1], [0, 0]) \<and>
      (1::nat) < length [0, 1 :: int]) \<and>
   (\<exists>i j. [0, 1] ! 1 = int i \<and> [0, 0] ! 1 = int j \<and>
      i < length [[0], [0 :: real]] \<and> j < length [[0], [1 :: real]] \<and>
      (\<forall>j' < length [[0], [1 :: real]]. j' \<noteq> j \<longrightarrow>
         norm_L2 ([[0], [0]] ! i) ([[0], [1]] ! j) < 0.8 * norm_L2 ([[0], [0]] ! i) ([[0], [1]] ! j')))"
proof -
  have h1: "match_features_of knn_ex = Inr ([0, 2], [1, 1]) \<and> (1::nat) < length [0, 2 :: int]"
    by (simp add: knn_ex_eval)
  have h2: "fst (match_features geo_ex [[0], [0]] [[0], [1]]) = Inr ([0, 1], [0, 0]) \<and>
      (1::nat) < length [0, 1 :: int]"
    by (simp add: shared_train_eval)
  from ratio_bound[of knn_ex "[0, 2]" "[1, 1]" 1 geo_ex "[[0], [0]]" "[[0], [1]]" "[0, 1]" "[0, 0]" 1]
    h1 h2 show ?thesis by blast
qed

text \<open>
  C4. With one descriptor in \<open>desc1\<close> and one in \<open>desc2\<close>, every row of neighbours holds
  a single match, the unpacking \<open>for m, n in knn_matches\<close> raises \<open>ValueError\<close>, and
  \<open>match_features\<close> returns nothing.
\<close>

theorem single_train_descriptor_raises:
  "fst (match_features geo_ex [[0]] [[0]]) =
     Inl (ValueError ''not enough values to unpack (expected 2, got 1)'')"
  by (simp add: match_features_def knnMatch_def knn_row_def norm_L2_1d
        match_features_of_def)

text \<open>
  C5. When \<open>recoverPose\<close> returns a mask with one entry for each pair of input points,
  as OpenCV documents, the inlier mask of a successful call of \<open>estimate_pose\<close> is a
  list of booleans whose length is the number of input correspondences.
\<close>

theorem mask_length:
  assumes "recoverPose_mask_per_point cv"
    and "fst (estimate_pose cv self kpts1 kpts2) = Inr (R, t, Some inlier_mask)"
  shows "length inlier_mask = length kpts1"
  using assms unfolding recoverPose_mask_per_point_def
  by (fastforce simp: estimate_pose_def getattr_def split: sum.splits option.splits if_splits)

lemma cv_ex_mask_per_point: "recoverPose_mask_per_point cv_ex"
  by (auto simp: recoverPose_mask_per_point_def cv_ex_def)

lemma estimate_pose_ex:
  "fst (estimate_pose cv_ex geo_ex pts_ex pts2_ex) =
     Inr (Some \<lparr>shape = [3, 3], data = [1, 0, 0,  0, 1, 0,  0, 0, 1]\<rparr>,
          Some \<lparr>shape = [3, 1], data = [0, 0, 1]\<rparr>,
          Some [True, True, True, True, True, True, False, True, False, True])"
  by (simp add: estimate_pose_def getattr_def geo_ex_def cv_ex_def pts_ex_def)

theorem mask_length_witness:
  "recoverPose_mask_per_point cv_ex \<and>
   fst (estimate_pose cv_ex geo_ex pts_ex pts2_ex) =
     Inr (Some \<lparr>shape = [3, 3], data = [1, 0, 0,  0, 1, 0,  0, 0, 1]\<rparr>,
          Some \<lparr>shape = [3, 1], data = [0, 0, 1]\<rparr>,
          Some [True, True, True, True, True, True, False, True, False, True]) \<and>
   length [True, True, True, True, True, True, False, True, False, True] = length pts_ex"
  using mask_length[OF cv_ex_mask_per_point estimate_pose_ex] cv_ex_mask_per_point estimate_pose_ex
  by simp

text \<open>
  C6. Whenever \<open>estimate_pose\<close> returns, its three components are all \<open>None\<close> or all
  present. On its two failure conditions it returns \<open>(None, None, None)\<close> and does not
  raise: fewer than five correspondences, and a fit whose matrix is \<open>None\<close> or not of
  shape \<open>(3, 3)\<close>.
\<close>

theorem all_or_nothing:
  "(fst (estimate_pose cv self kpts1 kpts2) = Inr (R, t, inlier_mask) \<longrightarrow>
      (R = None \<and> t = None \<and> inlier_mask = None) \<or>
      (R \<noteq> None \<and> t \<noteq> None \<and> inlier_mask \<noteq> None)) \<and>
   (length kpts1 < 5 \<longrightarrow> fst (estimate_pose cv self kpts1 kpts2) = Inr (None, None, None)) \<and>
   (self ''K'' = Some K \<and>
    findEssentialMat cv kpts1 kpts2 K USAC_MAGSAC 0.9999 1.0 = Inr (E, mask_E) \<and>
    (\<forall>E'. E = Some E' \<longrightarrow> shape E' \<noteq> [3, 3]) \<longrightarrow>
      fst (estimate_pose cv self kpts1 kpts2) = Inr (None, None, None))"
  by (auto simp: estimate_pose_def getattr_def split: sum.splits option.splits if_splits)

lemma estimate_pose_no_model:
  "geo_ex ''K'' = Some K_ex \<and>
   findEssentialMat cv_no_model pts_ex pts2_ex K_ex USAC_MAGSAC 0.9999 1.0 = Inr (None, None) \<and>
   (\<forall>E'. (None :: real ndarray option) = Some E' \<longrightarrow> shape E' \<noteq> [3, 3])"
  by (simp add: geo_ex_def cv_no_model_def)

theorem all_or_nothing_witness:
  "fst (estimate_pose cv_ex geo_ex pts_ex pts2_ex) =
     Inr (Some \<lparr>shape = [3, 3], data = [1, 0, 0,  0, 1, 0,  0, 0, 1]\<rparr>,
          Some \<lparr>shape = [3, 1], data = [0, 0, 1]\<rparr>,
          Some [True, True, True, True, True, True, False, True, False, True]) \<and>
   length (take 4 pts_ex) < 5 \<and>
   fst (estimate_pose cv_raising geo_ex (take 4 pts_ex) (take 4 pts2_ex)) = Inr (None, None, None) \<and>
   \<not> length pts_ex < 5 \<and>
   fst (estimate_pose cv_no_model geo_ex pts_ex pts2_ex) = Inr (None, None, None)"
proof -
  have len: "length (take 4 pts_ex) < 5" by (simp add: pts_ex_def)
  have "fst (estimate_pose cv_raising geo_ex (take 4 pts_ex) (take 4 pts2_ex)) =
      Inr (None, None, None)"
    using all_or_nothing[of cv_raising geo_ex "take 4 pts_ex" "take 4 pts2_ex"] len by blast
  moreover have "fst (estimate_pose cv_no_model geo_ex pts_ex pts2_ex) = Inr (None, None, None)"
    using all_or_nothing[of cv_no_model geo_ex pts_ex pts2_ex _ _ _ K_ex None None]
      estimate_pose_no_model by blast
  moreover have "\<not> length pts_ex < 5" by (simp add: pts_ex_def)
  ultimately show ?thesis using estimate_pose_ex len by simp
qed

text \<open>
  C7. When \<open>recoverPose\<close> refines the mask it is given as the spec describes, the
  inlier mask of a successful call of \<open>estimate_pose\<close> is derived from the mask of the
  fit, which line 103 passes on: every correspondence it marks was an inlier of the fit,
  and it marks exactly those inliers of the fit that have positive depth under the
  returned \<open>(R, t)\<close>.
\<close>

theorem mask_refined:
  assumes "recoverPose_mask_in_out positive_depth cv"
    and "self ''K'' = Some K"
    and "findEssentialMat cv kpts1 kpts2 K USAC_MAGSAC 0.9999 1.0 = Inr (E, Some mask_E)"
    and "fst (estimate_pose cv self kpts1 kpts2) = Inr (Some R, Some t, Some inlier_mask)"
  shows "length inlier_mask = length kpts1 \<and> length (data mask_E) = length kpts1 \<and>
         (\<forall>k < length kpts1.
            (inlier_mask ! k \<longrightarrow> data mask_E ! k > 0) \<and>
            (inlier_mask ! k \<longleftrightarrow>
               data mask_E ! k > 0 \<and> positive_depth R t K (kpts1 ! k) (kpts2 ! k)))"
proof -
  from assms(2,3,4) obtain E' retval mask_pose where
    rp: "recoverPose cv E' kpts1 kpts2 K (Some mask_E) = Inr (retval, R, t, mask_pose)"
    and im: "inlier_mask = map (\<lambda>v. v > 0) (data mask_pose)"
    by (auto simp: estimate_pose_def getattr_def split: sum.splits option.splits if_splits)
  from assms(1) rp have len: "length (data mask_E) = length kpts1"
    "length (data mask_pose) = length kpts1"
    and ent: "\<forall>k < length kpts1. data mask_pose ! k > 0 \<longleftrightarrow>
        data mask_E ! k > 0 \<and> positive_depth R t K (kpts1 ! k) (kpts2 ! k)"
    unfolding recoverPose_mask_in_out_def by blast+
  have "inlier_mask ! k \<longleftrightarrow> data mask_pose ! k > 0" if "k < length kpts1" for k
    using that len(2) im by simp
  with ent len im show ?thesis by simp
qed

lemma cv_masked_in_out: "recoverPose_mask_in_out positive_depth_ex cv_masked"
  by (auto simp: recoverPose_mask_in_out_def cv_masked_def positive_depth_ex_def Let_def
        split: if_splits)

lemma cv_masked_fit:
  "findEssentialMat cv_masked pts_ex pts2_ex K_ex USAC_MAGSAC 0.9999 1.0 =
     Inr (Some \<lparr>shape = [3, 3], data = [0, -1, 0,  1, 0, 0,  0, 0, 0]\<rparr>,
          Some \<lparr>shape = [10, 1], data = [1, 1, 1, 1, 1, 1, 0, 1, 1, 1]\<rparr>)"
  by (simp add: cv_masked_def pts_ex_def)

lemma estimate_pose_masked:
  "fst (estimate_pose cv_masked geo_ex pts_ex pts2_ex) =
     Inr (Some \<lparr>shape = [3, 3], data = [1, 0, 0,  0, 1, 0,  0, 0, 1]\<rparr>,
          Some \<lparr>shape = [3, 1], data = [0, 0, 1]\<rparr>,
          Some [True, True, True, True, True, True, False, True, False, True])"
  by (simp add: estimate_pose_def getattr_def geo_ex_def cv_masked_def pts_ex_def pts2_ex_def
        Let_def)

theorem mask_refined_witness:
  "recoverPose_mask_in_out positive_depth_ex cv_masked \<and>
   geo_ex ''K'' = Some K_ex \<and>
   findEssentialMat cv_masked pts_ex pts2_ex K_ex USAC_MAGSAC 0.9999 1.0 =
     Inr (Some \<lparr>shape = [3, 3], data = [0, -1, 0,  1, 0, 0,  0, 0, 0]\<rparr>,
          Some \<lparr>shape = [10, 1], data = [1, 1, 1, 1, 1, 1, 0, 1, 1, 1]\<rparr>) \<and>
   fst (estimate_pose cv_masked geo_ex pts_ex pts2_ex) =
     Inr (Some \<lparr>shape = [3, 3], data = [1, 0, 0,  0, 1, 0,  0, 0, 1]\<rparr>,
          Some \<lparr>shape = [3, 1], data = [0, 0, 1]\<rparr>,
          Some [True, True, True, True, True, True, False, True, False, True]) \<and>
   length [True, True, True, True, True, True, False, True, False, True] = length pts_ex \<and>
   length [1, 1, 1, 1, 1, 1, 0, 1, 1, 1 :: 8 word] = length pts_ex \<and>
   ([True, True, True, True, True, True, False, True, False, True] ! 8 \<longleftrightarrow>
      [1, 1, 1, 1, 1, 1, 0, 1, 1, 1 :: 8 word] ! 8 > 0 \<and>
      positive_depth_ex \<lparr>shape = [3, 3], data = [1, 0, 0,  0, 1, 0,  0, 0, 1]\<rparr>
        \<lparr>shape = [3, 1], data = [0, 0, 1]\<rparr> K_ex (pts_ex ! 8) (pts2_ex ! 8)) \<and>
   [1, 1, 1, 1, 1, 1, 0, 1, 1, 1 :: 8 word] ! 8 > 0 \<and>
   \<not> [True, True, True, True, True, True, False, True, False, True] ! 8"
proof -
  have K: "geo_ex ''K'' = Some K_ex" by (simp add: geo_ex_def)
  have k: "(8::nat) < length pts_ex" by (simp add: pts_ex_def)
  note r = mask_refined[OF cv_masked_in_out K cv_masked_fit estimate_pose_masked]
  from r have "\<forall>k < length pts_ex.
      ([True, True, True, True, True, True, False, True, False, True] ! k \<longleftrightarrow>
         data \<lparr>shape = [10, 1], data = [1, 1, 1, 1, 1, 1, 0, 1, 1, 1 :: 8 word]\<rparr> ! k > 0 \<and>
         positive_depth_ex \<lparr>shape = [3, 3], data = [1, 0, 0,  0, 1, 0,  0, 0, 1]\<rparr>
           \<lparr>shape = [3, 1], data = [0, 0, 1]\<rparr> K_ex (pts_ex ! k) (pts2_ex ! k))"
    by blast
  with k have "[True, True, True, True, True, True, False, True, False, True] ! 8 \<longleftrightarrow>
      data \<lparr>shape = [10, 1], data = [1, 1, 1, 1, 1, 1, 0, 1, 1, 1 :: 8 word]\<rparr> ! 8 > 0 \<and>
      positive_depth_ex \<lparr>shape = [3, 3], data = [1, 0, 0,  0, 1, 0,  0, 0, 1]\<rparr>
        \<lparr>shape = [3, 1], data = [0, 0, 1]\<rparr> K_ex (pts_ex ! 8) (pts2_ex ! 8)"
    by blast
  moreover from r have "length [True, True, True, True, True, True, False, True, False, True] =
      length pts_ex" by blast
  moreover have "length [1, 1, 1, 1, 1, 1, 0, 1, 1, 1 :: 8 word] = length pts_ex"
    by (simp add: pts_ex_def)
  ultimately show ?thesis
    using cv_masked_in_out K cv_masked_fit estimate_pose_masked by simp
qed

text \<open>
  C8. The output lists the accepted first matches in the order of the rows of
  \<open>knn_matches\<close>, nothing removed; the rows come in the order of the queries, so \<open>idx1\<close>
  is strictly increasing; and a train index may appear twice in \<open>idx2\<close>.
\<close>

theorem order_kept_no_dedup:
  "(match_features_of knn_matches = Inr (idx1, idx2) \<longrightarrow>
      zip idx1 idx2 =
        map (\<lambda>row. (queryIdx (row ! 0), trainIdx (row ! 0)))
          (filter (\<lambda>row. ratio_test (row ! 0) (row ! 1)) knn_matches)) \<and>
   (fst (match_features self desc1 desc2) = Inr (idx1', idx2') \<longrightarrow> sorted_wrt (<) idx1') \<and>
   (\<exists>d1 d2 i1 i2. fst (match_features self d1 d2) = Inr (i1, i2) \<and> \<not> distinct i2)"
proof (intro conjI impI)
  assume "match_features_of knn_matches = Inr (idx1, idx2)"
  from match_features_of_Inr[OF this]
  show "zip idx1 idx2 =
        map (\<lambda>row. (queryIdx (row ! 0), trainIdx (row ! 0)))
          (filter (\<lambda>row. ratio_test (row ! 0) (row ! 1)) knn_matches)"
    by (simp add: accepted_def zip_map_map comp_def zip_same_conv_map)
next
  assume "fst (match_features self desc1 desc2) = Inr (idx1', idx2')"
  from match_features_idx1[OF this] show "sorted_wrt (<) idx1'"
    by (simp only: sorted_wrt_int_filter)
next
  have "fst (match_features self [[0], [0]] [[0], [1]]) = Inr ([0, 1], [0, 0])"
    by (simp add: match_features_def knnMatch_def knn_row_def norm_L2_1d upt_2
          match_features_of_def ratio_test_def)
  moreover have "\<not> distinct [0, 0 :: int]" by simp
  ultimately show "\<exists>d1 d2 i1 i2. fst (match_features self d1 d2) = Inr (i1, i2) \<and> \<not> distinct i2"
    by blast
qed

theorem order_kept_no_dedup_witness:
  "match_features_of knn_ex = Inr ([0, 2], [1, 1]) \<and>
   zip [0, 2] [1, 1] =
        map (\<lambda>row. (queryIdx (row ! 0), trainIdx (row ! 0)))
          (filter (\<lambda>row. ratio_test (row ! 0) (row ! 1)) knn_ex) \<and>
   fst (match_features geo_ex [[0], [0]] [[0], [1]]) = Inr ([0, 1], [0, 0]) \<and>
   sorted_wrt (<) [0, 1 :: int]"
  using order_kept_no_dedup[of knn_ex "[0, 2]" "[1, 1]" geo_ex "[[0], [0]]" "[[0], [1]]" "[0, 1]" "[0, 0]"]
    knn_ex_eval shared_train_eval by simp

text \<open>
  C9. \<open>__init__\<close> builds \<open>K\<close> from \<open>fx\<close>, \<open>fy\<close>, \<open>cx\<close>, \<open>cy\<close>, each converted
  to a double, as the only attribute of the instance, and a call of \<open>match_features\<close> or
  of \<open>estimate_pose\<close> leaves the instance as it was, whether the call returns or raises.
\<close>

theorem K_fixed:
  "(init camera_intrinsics = Inr self0 \<longrightarrow>
      (\<exists>vfx vfy vcx vcy fx fy cx cy.
         camera_intrinsics ''fx'' = Some vfx \<and> camera_intrinsics ''fy'' = Some vfy \<and>
         camera_intrinsics ''cx'' = Some vcx \<and> camera_intrinsics ''cy'' = Some vcy \<and>
         to_float64 vfx = Inr fx \<and> to_float64 vfy = Inr fy \<and>
         to_float64 vcx = Inr cx \<and> to_float64 vcy = Inr cy \<and>
         self0 = Map.empty(''K'' \<mapsto> \<lparr>shape = [3, 3],
                   data = [fx, Finite 0, cx,  Finite 0, fy, cy,  Finite 0, Finite 0, Finite 1]\<rparr>))) \<and>
   snd (match_features self desc1 desc2) = self \<and>
   snd (estimate_pose cv self kpts1 kpts2) = self"
proof (intro conjI impI)
  assume a: "init camera_intrinsics = Inr self0"
  from a obtain vfx where vfx: "camera_intrinsics ''fx'' = Some vfx"
    by (auto simp: init_def lookup_def split: option.splits)
  from a vfx obtain vfy where vfy: "camera_intrinsics ''fy'' = Some vfy"
    by (auto simp: init_def lookup_def split: option.splits)
  from a vfx vfy obtain vcx where vcx: "camera_intrinsics ''cx'' = Some vcx"
    by (auto simp: init_def lookup_def split: option.splits)
  from a vfx vfy vcx obtain vcy where vcy: "camera_intrinsics ''cy'' = Some vcy"
    by (auto simp: init_def lookup_def split: option.splits)
  from a vfx vfy vcx vcy obtain entries where
    c: "convert_all [vfx, PyInt 0, vcx,  PyInt 0, vfy, vcy,  PyInt 0, PyInt 0, PyInt 1] = Inr entries"
    and s0: "self0 = Map.empty(''K'' \<mapsto> \<lparr>shape = [3, 3], data = entries\<rparr>)"
    by (auto simp: init_def lookup_def split: sum.splits)
  from c obtain fx fy cx cy where "to_float64 vfx = Inr fx" "to_float64 vfy = Inr fy"
    "to_float64 vcx = Inr cx" "to_float64 vcy = Inr cy"
    "entries = [fx, Finite 0, cx,  Finite 0, fy, cy,  Finite 0, Finite 0, Finite 1]"
    by (auto simp: int_to_float64_0 int_to_float64_1 split: sum.splits)
  with vfx vfy vcx vcy s0
  show "\<exists>vfx vfy vcx vcy fx fy cx cy.
         camera_intrinsics ''fx'' = Some vfx \<and> camera_intrinsics ''fy'' = Some vfy \<and>
         camera_intrinsics ''cx'' = Some vcx \<and> camera_intrinsics ''cy'' = Some vcy \<and>
         to_float64 vfx = Inr fx \<and> to_float64 vfy = Inr fy \<and>
         to_float64 vcx = Inr cx \<and> to_float64 vcy = Inr cy \<and>
         self0 = Map.empty(''K'' \<mapsto> \<lparr>shape = [3, 3],
                   data = [fx, Finite 0, cx,  Finite 0, fy, cy,  Finite 0, Finite 0, Finite 1]\<rparr>)"
    by blast
next
  show "snd (match_features self desc1 desc2) = self"
    by (simp add: match_features_def)
next
  show "snd (estimate_pose cv self kpts1 kpts2) = self"
    by (auto simp: estimate_pose_def split: sum.splits option.splits if_splits)
qed

lemma init_ex: "init intrinsics_ex = Inr geo_ex"
  using int_to_float64_small[of 800] int_to_float64_small[of 320] int_to_float64_small[of 240]
  by (simp add: init_def lookup_def intrinsics_ex_def geo_ex_def K_ex_def
        int_to_float64_0 int_to_float64_1)

theorem K_fixed_witness:
  "init intrinsics_ex = Inr geo_ex \<and>
   (\<exists>vfx vfy vcx vcy fx fy cx cy.
      intrinsics_ex ''fx'' = Some vfx \<and> intrinsics_ex ''fy'' = Some vfy \<and>
      intrinsics_ex ''cx'' = Some vcx \<and> intrinsics_ex ''cy'' = Some vcy \<and>
      to_float64 vfx = Inr fx \<and> to_float64 vfy = Inr fy \<and>
      to_float64 vcx = Inr cx \<and> to_float64 vcy = Inr cy \<and>
      geo_ex = Map.empty(''K'' \<mapsto> \<lparr>shape = [3, 3],
                 data = [fx, Finite 0, cx,  Finite 0, fy, cy,  Finite 0, Finite 0, Finite 1]\<rparr>)) \<and>
   snd (match_features geo_ex [[0], [0]] [[0], [1]]) = geo_ex \<and>
   snd (estimate_pose cv_ex geo_ex pts_ex pts2_ex) = geo_ex"
  using K_fixed[of intrinsics_ex geo_ex geo_ex "[[0], [0]]" "[[0], [1]]" cv_ex pts_ex pts2_ex] init_ex
  by blast

text \<open>
  C10. When \<open>match_features\<close> returns, \<open>idx1\<close> and \<open>idx2\<close> have the same length, the
  length of \<open>good_matches\<close>, and position \<open>k\<close> of both comes from the \<open>k\<close>-th accepted
  match: its \<open>queryIdx\<close> and its \<open>trainIdx\<close>.
\<close>

theorem index_arrays_parallel:
  assumes "fst (match_features self desc1 desc2) = Inr (idx1, idx2)"
  shows "length idx1 = length idx2 \<and>
         (\<exists>good_matches. ratio_loop (knnMatch desc1 desc2 2) [] = Inr good_matches \<and>
            length good_matches = length idx1 \<and>
            (\<forall>k < length good_matches.
               idx1 ! k = queryIdx (good_matches ! k) \<and> idx2 ! k = trainIdx (good_matches ! k)))"
proof -
  from assms have "match_features_of (knnMatch desc1 desc2 2) = Inr (idx1, idx2)"
    by (simp add: match_features_def)
  then show ?thesis by (rule index_arrays_of_loop)
qed

theorem index_arrays_parallel_witness:
  "fst (match_features geo_ex [[0], [0]] [[0], [1]]) = Inr ([0, 1], [0, 0]) \<and>
   length [0, 1 :: int] = length [0, 0 :: int] \<and>
   (\<exists>good_matches. ratio_loop (knnMatch [[0], [0]] [[0], [1]] 2) [] = Inr good_matches \<and>
      length good_matches = length [0, 1 :: int] \<and>
      (\<forall>k < length good_matches.
         [0, 1] ! k = queryIdx (good_matches ! k) \<and> [0, 0] ! k = trainIdx (good_matches ! k)))"
  using index_arrays_parallel[OF shared_train_eval] shared_train_eval by simp

end
